theory Spec2Isabelle
  imports Main "HOL-Library.Word"
begin

section \<open>JavaScript strings\<close>

text \<open>
  A JavaScript string is a sequence of UTF-16 code units; \<open>length\<close> counts code units
  and \<open>trim\<close> removes the code units of WhiteSpace and LineTerminator from both ends.
  The regular-expression class \<open>\s\<close> is the same set of code units.
\<close>

type_synonym code_unit = "16 word"
type_synonym jsstring = "code_unit list"

definition js :: "string \<Rightarrow> jsstring" where
  \<comment> \<open>an ASCII literal of the source, as code units\<close>
  "js s = map of_char s"

definition isWhiteSpace :: "code_unit \<Rightarrow> bool" where
  "isWhiteSpace c \<longleftrightarrow>
     c = 0x0009 \<or> c = 0x000A \<or> c = 0x000B \<or> c = 0x000C \<or> c = 0x000D \<or> c = 0x0020 \<or>
     c = 0x00A0 \<or> c = 0x1680 \<or> (0x2000 \<le> c \<and> c \<le> 0x200A) \<or> c = 0x2028 \<or>
     c = 0x2029 \<or> c = 0x202F \<or> c = 0x205F \<or> c = 0x3000 \<or> c = 0xFEFF"

definition trim :: "jsstring \<Rightarrow> jsstring" where
  "trim s = rev (dropWhile isWhiteSpace (rev (dropWhile isWhiteSpace s)))"

section \<open>Regular expressions\<close>

text \<open>
  Both patterns of the source are anchored with \<open>^\<close> and \<open>$\<close> and carry no flag, so
  \<open>test\<close> succeeds exactly when the whole string matches. Patterns are built from
  character classes, concatenation and \<open>+\<close>; the matcher below decides a whole-string
  match by taking the pattern's derivative code unit by code unit.
\<close>

datatype regex =
    Fail
  | Eps
  | Class "code_unit \<Rightarrow> bool"
  | Alt regex regex
  | Seq regex regex
  | Rep regex

definition Plus :: "regex \<Rightarrow> regex" where
  "Plus r = Seq r (Rep r)"

fun nullable :: "regex \<Rightarrow> bool" where
  "nullable Fail = False"
| "nullable Eps = True"
| "nullable (Class p) = False"
| "nullable (Alt r q) = (nullable r \<or> nullable q)"
| "nullable (Seq r q) = (nullable r \<and> nullable q)"
| "nullable (Rep r) = True"

fun deriv :: "code_unit \<Rightarrow> regex \<Rightarrow> regex" where
  "deriv c Fail = Fail"
| "deriv c Eps = Fail"
| "deriv c (Class p) = (if p c then Eps else Fail)"
| "deriv c (Alt r q) = Alt (deriv c r) (deriv c q)"
| "deriv c (Seq r q) =
     (if nullable r then Alt (Seq (deriv c r) q) (deriv c q) else Seq (deriv c r) q)"
| "deriv c (Rep r) = Seq (deriv c r) (Rep r)"

fun test :: "regex \<Rightarrow> jsstring \<Rightarrow> bool" where
  "test r [] = nullable r"
| "test r (c # cs) = test (deriv c r) cs"

text \<open>The meaning of a pattern, as the set of strings it matches as a whole.\<close>

inductive_set star :: "jsstring set \<Rightarrow> jsstring set" for L :: "jsstring set" where
  star_nil: "[] \<in> star L"
| star_app: "u \<in> L \<Longrightarrow> v \<in> star L \<Longrightarrow> u @ v \<in> star L"

fun lang :: "regex \<Rightarrow> jsstring set" where
  "lang Fail = {}"
| "lang Eps = {[]}"
| "lang (Class p) = {[c] | c. p c}"
| "lang (Alt r q) = lang r \<union> lang q"
| "lang (Seq r q) = {u @ v | u v. u \<in> lang r \<and> v \<in> lang q}"
| "lang (Rep r) = star (lang r)"

section \<open>Validation utilities\<close>

text \<open>
  Each validator returns \<open>null\<close> (here \<open>None\<close>) or a message. The messages are
  constants of the source that are only stored, compared and tested for emptiness; they
  are kept as literals.
\<close>

definition notSpaceAt :: "code_unit \<Rightarrow> bool" where
  \<comment> \<open>the class \<open>[^\s@]\<close>\<close>
  "notSpaceAt c \<longleftrightarrow> \<not> isWhiteSpace c \<and> c \<noteq> of_char CHR ''@''"

definition emailRegex :: regex where
  \<comment> \<open>\<open>/^[^\s@]+@[^\s@]+\.[^\s@]+$/\<close>\<close>
  "emailRegex =
     Seq (Plus (Class notSpaceAt))
       (Seq (Class (\<lambda>c. c = of_char CHR ''@''))
         (Seq (Plus (Class notSpaceAt))
           (Seq (Class (\<lambda>c. c = of_char CHR ''.''))
             (Plus (Class notSpaceAt)))))"

definition wordChar :: "code_unit \<Rightarrow> bool" where
  \<comment> \<open>the class \<open>[a-zA-Z0-9_]\<close>\<close>
  "wordChar c \<longleftrightarrow>
     (of_char CHR ''a'' \<le> c \<and> c \<le> of_char CHR ''z'') \<or>
     (of_char CHR ''A'' \<le> c \<and> c \<le> of_char CHR ''Z'') \<or>
     (of_char CHR ''0'' \<le> c \<and> c \<le> of_char CHR ''9'') \<or>
     c = of_char CHR ''_''"

definition usernameRegex :: regex where
  \<comment> \<open>\<open>/^[a-zA-Z0-9_]+$/\<close>\<close>
  "usernameRegex = Plus (Class wordChar)"

definition validateEmail :: "jsstring \<Rightarrow> string option" where
  "validateEmail email =
     (if trim email = [] then Some ''Email is required''
      else if test emailRegex email then None
      else Some ''Please enter a valid email address'')"

definition validateFullName :: "jsstring \<Rightarrow> string option" where
  "validateFullName name =
     (if trim name = [] then Some ''Full name is required''
      else if length (trim name) < 2 then Some ''Name must be at least 2 characters''
      else None)"

definition validateUsername :: "jsstring \<Rightarrow> string option" where
  "validateUsername username =
     (if trim username = [] then Some ''Username is required''
      else if length username < 3 then Some ''Username must be at least 3 characters''
      else if \<not> test usernameRegex username
        then Some ''Username can only contain letters, numbers, and underscores''
      else None)"

definition validatePassword :: "jsstring \<Rightarrow> string option" where
  "validatePassword password =
     (if trim password = [] then Some ''Password is required''
      else if length password < 6 then Some ''Password must be at least 6 characters''
      else None)"

definition validateTheme :: "jsstring \<Rightarrow> string option" where
  \<comment> \<open>\<open>!theme\<close> holds of the empty string only\<close>
  "validateTheme theme = (if theme = [] then Some ''Please select a theme'' else None)"

section \<open>Form state\<close>

text \<open>
  The hook \<open>useOnboardingForm\<close> is private to its module. Its text fields are written
  with the value of an input element, \<open>newsletter\<close> with a checkbox's \<open>checked\<close>, and
  \<open>theme\<close> only with the \<open>value\<close> of one of the two theme options; together with the
  initial \<open>''\<close> the theme is therefore a three-valued enumeration, whose string is
  \<open>themeValue\<close>.
\<close>

datatype theme = NoTheme | Light | Dark

fun themeValue :: "theme \<Rightarrow> jsstring" where
  "themeValue NoTheme = []"
| "themeValue Light = js ''Light''"
| "themeValue Dark = js ''Dark''"

record form_data =
  fullName :: jsstring
  email :: jsstring
  username :: jsstring
  password :: jsstring
  theme :: theme
  newsletter :: bool

datatype field = FullName | Email | Username | Password | Theme | Newsletter

text \<open>
  The object \<open>errors\<close>: a key is absent (\<open>None\<close>), present and \<open>null\<close>
  (\<open>Some None\<close>), or present with a message (\<open>Some (Some m)\<close>).
\<close>

type_synonym error_map = "field \<rightharpoonup> string option"

record hook_state =
  formData :: form_data
  errors :: error_map
  currentStep :: int
  isSubmitting :: bool

definition initialFormData :: form_data where
  "initialFormData =
     \<lparr>fullName = [], email = [], username = [], password = [], theme = NoTheme,
      newsletter = False\<rparr>"

definition initialState :: hook_state where
  "initialState =
     \<lparr>formData = initialFormData, errors = Map.empty, currentStep = 1, isSubmitting = False\<rparr>"

text \<open>
  A call \<open>updateField(field, value)\<close> as the call sites make it: the field's name
  together with a value of that field's type.
\<close>

datatype field_value =
    FullNameV jsstring
  | EmailV jsstring
  | UsernameV jsstring
  | PasswordV jsstring
  | ThemeV theme
  | NewsletterV bool

fun fieldOf :: "field_value \<Rightarrow> field" where
  "fieldOf (FullNameV v) = FullName"
| "fieldOf (EmailV v) = Email"
| "fieldOf (UsernameV v) = Username"
| "fieldOf (PasswordV v) = Password"
| "fieldOf (ThemeV v) = Theme"
| "fieldOf (NewsletterV v) = Newsletter"

fun setField :: "field_value \<Rightarrow> form_data \<Rightarrow> form_data" where
  \<comment> \<open>\<open>{ ...prev, [field]: value }\<close>\<close>
  "setField (FullNameV v) d = d\<lparr>fullName := v\<rparr>"
| "setField (EmailV v) d = d\<lparr>email := v\<rparr>"
| "setField (UsernameV v) d = d\<lparr>username := v\<rparr>"
| "setField (PasswordV v) d = d\<lparr>password := v\<rparr>"
| "setField (ThemeV v) d = d\<lparr>theme := v\<rparr>"
| "setField (NewsletterV v) d = d\<lparr>newsletter := v\<rparr>"

fun getField :: "field \<Rightarrow> form_data \<Rightarrow> field_value" where
  \<comment> \<open>\<open>formData[field]\<close>\<close>
  "getField FullName d = FullNameV (fullName d)"
| "getField Email d = EmailV (email d)"
| "getField Username d = UsernameV (username d)"
| "getField Password d = PasswordV (password d)"
| "getField Theme d = ThemeV (theme d)"
| "getField Newsletter d = NewsletterV (newsletter d)"

definition truthy :: "string option option \<Rightarrow> bool" where
  \<comment> \<open>\<open>errors[field]\<close> as a condition: \<open>undefined\<close>, \<open>null\<close> and \<open>''\<close> are falsy\<close>
  "truthy e = (case e of Some (Some m) \<Rightarrow> m \<noteq> [] | _ \<Rightarrow> False)"

definition updateField :: "field_value \<Rightarrow> hook_state \<Rightarrow> hook_state" where
  "updateField fv s =
     (let s1 = s\<lparr>formData := setField fv (formData s)\<rparr>
      in if truthy (errors s (fieldOf fv))
         then s1\<lparr>errors := (errors s)(fieldOf fv \<mapsto> None)\<rparr>
         else s1)"

text \<open>
  \<open>validateStep\<close> fills \<open>newErrors\<close> in the order of the assignments, keeps the
  entries whose value is not \<open>null\<close>, and stores the object built from them. The keys
  of the entries are distinct, so the new object has one key for each entry.
\<close>

definition newErrors :: "int \<Rightarrow> form_data \<Rightarrow> (field \<times> string option) list" where
  "newErrors step d =
     (if step = 1 then
        [(FullName, validateFullName (fullName d)), (Email, validateEmail (email d))]
      else if step = 2 then
        [(Username, validateUsername (username d)), (Password, validatePassword (password d))]
      else if step = 3 then
        [(Theme, validateTheme (themeValue (theme d)))]
      else [])"

definition validateStep :: "int \<Rightarrow> hook_state \<Rightarrow> bool \<times> hook_state" where
  "validateStep step s =
     (let filteredErrors = filter (\<lambda>(key, error). error \<noteq> None) (newErrors step (formData s))
      in (length (map fst filteredErrors) = 0, s\<lparr>errors := map_of filteredErrors\<rparr>))"

definition goToNextStep :: "hook_state \<Rightarrow> hook_state" where
  "goToNextStep s =
     (let (valid, s1) = validateStep (currentStep s) s
      in if valid then s1\<lparr>currentStep := min (currentStep s1 + 1) 3\<rparr> else s1)"

definition goToPreviousStep :: "hook_state \<Rightarrow> hook_state" where
  "goToPreviousStep s = s\<lparr>currentStep := max (currentStep s - 1) 1, errors := Map.empty\<rparr>"

definition resetForm :: "hook_state \<Rightarrow> hook_state" where
  "resetForm s =
     s\<lparr>formData := initialFormData, errors := Map.empty, currentStep := 1,
       isSubmitting := False\<rparr>"

section \<open>Submission\<close>

text \<open>
  \<open>submitForm\<close> awaits one promise inside \<open>try\<close>/\<open>catch\<close>/\<open>finally\<close>. The awaited
  operation is a parameter here: it is given the state of the hook at the moment it is
  started and either resolves or rejects. The result of \<open>submitForm\<close> is the returned
  boolean, the state when it returns, and the list of states in which the operation was
  started, one for each invocation. The source's own operation is a timer that always
  resolves.
\<close>

datatype outcome = Resolved | Rejected

definition simulatedApiCall :: "hook_state \<Rightarrow> outcome" where
  "simulatedApiCall s = Resolved"

definition submitForm ::
  "(hook_state \<Rightarrow> outcome) \<Rightarrow> hook_state \<Rightarrow> bool \<times> hook_state \<times> hook_state list" where
  "submitForm finalize s =
     (let (valid, s1) = validateStep 3 s
      in if \<not> valid then (False, s1, [])
         else
           let s2 = s1\<lparr>isSubmitting := True\<rparr>;
               returned = (case finalize s2 of Resolved \<Rightarrow> True | Rejected \<Rightarrow> False);
               s3 = s2\<lparr>isSubmitting := False\<rparr>
           in (returned, s3, [s2]))"

section \<open>The modal\<close>

record modal_state =
  isOpen :: bool
  hook :: hook_state

datatype js_value = JString jsstring | JBoolean bool

definition objectValues :: "form_data \<Rightarrow> js_value list" where
  \<comment> \<open>\<open>Object.values(formData)\<close>, in the order of the keys\<close>
  "objectValues d =
     [JString (fullName d), JString (email d), JString (username d), JString (password d),
      JString (themeValue (theme d)), JBoolean (newsletter d)]"

definition hasData :: "form_data \<Rightarrow> bool" where
  \<comment> \<open>\<open>.some(value => typeof value === 'string' ? value.trim() : value)\<close>\<close>
  "hasData d =
     list_ex (\<lambda>v. case v of JString s \<Rightarrow> trim s \<noteq> [] | JBoolean b \<Rightarrow> b) (objectValues d)"

definition handleOpenModal :: "modal_state \<Rightarrow> modal_state" where
  "handleOpenModal m = m\<lparr>isOpen := True, hook := resetForm (hook m)\<rparr>"

definition handleCloseModal :: "(string \<Rightarrow> bool) \<Rightarrow> modal_state \<Rightarrow> modal_state" where
  \<comment> \<open>\<open>confirm\<close> stands for \<open>window.confirm\<close>, asked only when there is data\<close>
  "handleCloseModal confirm m =
     (if hasData (formData (hook m)) \<and> \<not> confirm ''Close and lose progress?'' then m
      else m\<lparr>isOpen := False, hook := resetForm (hook m)\<rparr>)"

section \<open>Sequences of operations\<close>

text \<open>
  The operations the hook returns, run one after the other: each one reads the state that
  the previous one left and is finished before the next one starts. A submission counts as
  one operation, from its validation to the clearing of the flag.
\<close>

datatype operation =
    UpdateField field_value
  | ValidateStep int
  | GoToNextStep
  | GoToPreviousStep
  | SubmitForm "hook_state \<Rightarrow> outcome"
  | ResetForm

fun perform :: "operation \<Rightarrow> hook_state \<Rightarrow> hook_state" where
  "perform (UpdateField fv) s = updateField fv s"
| "perform (ValidateStep step) s = snd (validateStep step s)"
| "perform GoToNextStep s = goToNextStep s"
| "perform GoToPreviousStep s = goToPreviousStep s"
| "perform (SubmitForm finalize) s = fst (snd (submitForm finalize s))"
| "perform ResetForm s = resetForm s"

fun run :: "operation list \<Rightarrow> hook_state \<Rightarrow> hook_state" where
  "run [] s = s"
| "run (op # ops) s = run ops (perform op s)"

definition reachable :: "hook_state \<Rightarrow> bool" where
  "reachable s \<longleftrightarrow> (\<exists>ops. s = run ops initialState)"

section \<open>The specification's vocabulary\<close>

text \<open>
  The table of the specification: which fields a step owns, and which validator judges
  a field's stored value. \<open>newsletter\<close> has no validator and is always valid.
\<close>

definition ownedFields :: "int \<Rightarrow> field list" where
  "ownedFields step =
     (if step = 1 then [FullName, Email]
      else if step = 2 then [Username, Password]
      else if step = 3 then [Theme]
      else [])"

fun fieldValidator :: "field \<Rightarrow> form_data \<Rightarrow> string option" where
  "fieldValidator FullName d = validateFullName (fullName d)"
| "fieldValidator Email d = validateEmail (email d)"
| "fieldValidator Username d = validateUsername (username d)"
| "fieldValidator Password d = validatePassword (password d)"
| "fieldValidator Theme d = validateTheme (themeValue (theme d))"
| "fieldValidator Newsletter d = None"

definition failures :: "field list \<Rightarrow> form_data \<Rightarrow> error_map" where
  \<comment> \<open>one entry for each listed field whose validator fails, holding its message\<close>
  "failures fs d =
     (\<lambda>f. if f \<in> set fs
          then (case fieldValidator f d of None \<Rightarrow> None | Some m \<Rightarrow> Some (Some m))
          else None)"

definition emailShape :: "jsstring \<Rightarrow> bool" where
  \<comment> \<open>one or more non-space-non-@ characters, \<open>@\<close>, one or more such characters,
      \<open>.\<close>, one or more such characters\<close>
  "emailShape e \<longleftrightarrow>
     (\<exists>a b c. e = a @ [of_char CHR ''@''] @ b @ [of_char CHR ''.''] @ c \<and>
        a \<noteq> [] \<and> b \<noteq> [] \<and> c \<noteq> [] \<and>
        list_all notSpaceAt a \<and> list_all notSpaceAt b \<and> list_all notSpaceAt c)"

section \<open>Example states\<close>

text \<open>
  Concrete states used to run the model: the first step filled in correctly, the state
  left by a failed validation of the first step, the last step with a theme chosen, and an
  open modal with and without data.
\<close>

definition scenarioB :: hook_state where
  "scenarioB = initialState\<lparr>formData := initialFormData\<lparr>fullName := js ''Jo'', email := js ''jo@x.com''\<rparr>\<rparr>"

definition staleErrors :: hook_state where
  "staleErrors = snd (validateStep 1 initialState)"

definition scenarioE :: hook_state where
  "scenarioE = initialState\<lparr>formData := initialFormData\<lparr>theme := Dark\<rparr>, currentStep := 3\<rparr>"

definition dirtyModal :: modal_state where
  "dirtyModal = \<lparr>isOpen = True, hook = scenarioB\<rparr>"

definition cleanModal :: modal_state where
  "cleanModal = \<lparr>isOpen = True, hook = initialState\<lparr>currentStep := 2\<rparr>\<rparr>"

section \<open>An invariant of the error map\<close>

text \<open>
  Every message held by the error map is the message that the field's validator gives for
  the value stored now.
\<close>

definition messagesCurrent :: "hook_state \<Rightarrow> bool" where
  "messagesCurrent s \<longleftrightarrow>
     (\<forall>f m. errors s f = Some (Some m) \<longrightarrow> fieldValidator f (formData s) = Some m)"

section \<open>Theorems\<close>

subsection \<open>The matcher decides the pattern's language\<close>

lemma nil_in_star: "[] \<in> star L"
  by (rule star.star_nil)

lemma cons_in_star:
  "c # w \<in> star L \<longleftrightarrow> (\<exists>u v. w = u @ v \<and> c # u \<in> L \<and> v \<in> star L)"
proof
  assume "c # w \<in> star L"
  then show "\<exists>u v. w = u @ v \<and> c # u \<in> L \<and> v \<in> star L"
  proof (induction "c # w" rule: star.induct)
    case (star_app u v)
    show ?case
    proof (cases u)
      case Nil
      with star_app show ?thesis by simp
    next
      case (Cons a u')
      with star_app.hyps(1,2,4) show ?thesis by auto
    qed
  qed
next
  assume "\<exists>u v. w = u @ v \<and> c # u \<in> L \<and> v \<in> star L"
  then obtain u v where "w = u @ v" "c # u \<in> L" "v \<in> star L" by blast
  then have "(c # u) @ v \<in> star L" by (blast intro: star.star_app)
  with \<open>w = u @ v\<close> show "c # w \<in> star L" by simp
qed

lemma nullable_lang: "nullable r \<longleftrightarrow> [] \<in> lang r"
  by (induction r) (auto intro: star.star_nil)

lemma lang_deriv: "w \<in> lang (deriv c r) \<longleftrightarrow> c # w \<in> lang r"
proof (induction r arbitrary: w)
  case (Seq r q)
  show ?case
  proof
    assume "w \<in> lang (deriv c (Seq r q))"
    then consider (l) u v where "w = u @ v" "u \<in> lang (deriv c r)" "v \<in> lang q"
      | (r) "nullable r" "w \<in> lang (deriv c q)"
      by (auto split: if_splits)
    then show "c # w \<in> lang (Seq r q)"
    proof cases
      case l
      then have "c # u \<in> lang r" using Seq.IH(1) by blast
      with l have "(c # u) @ v \<in> lang (Seq r q)" by (simp del: append_Cons) blast
      with l show ?thesis by simp
    next
      case r
      then have "[] \<in> lang r" "c # w \<in> lang q" using Seq.IH(2) nullable_lang by blast+
      then have "[] @ (c # w) \<in> lang (Seq r q)" by (simp del: append_Nil) blast
      then show ?thesis by simp
    qed
  next
    assume "c # w \<in> lang (Seq r q)"
    then obtain u v where uv: "c # w = u @ v" "u \<in> lang r" "v \<in> lang q" by auto
    show "w \<in> lang (deriv c (Seq r q))"
    proof (cases u)
      case Nil
      with uv have "nullable r" "w \<in> lang (deriv c q)"
        using Seq.IH(2) nullable_lang by auto
      then show ?thesis by simp
    next
      case (Cons a u')
      with uv have "w = u' @ v" "u' \<in> lang (deriv c r)" using Seq.IH(1) by auto
      with uv(3) show ?thesis by auto
    qed
  qed
next
  case (Rep r)
  show ?case by (simp add: cons_in_star Rep.IH)
qed auto

lemma test_lang: "test r w \<longleftrightarrow> w \<in> lang r"
  by (induction w arbitrary: r) (simp_all add: nullable_lang lang_deriv)

lemma star_class: "w \<in> star {[c] | c. p c} \<longleftrightarrow> list_all p w"
proof (induction w)
  case Nil
  show ?case by (simp add: star.star_nil)
next
  case (Cons a w)
  show ?case by (simp add: cons_in_star Cons.IH) 
qed

lemma lang_Plus_Class: "w \<in> lang (Plus (Class p)) \<longleftrightarrow> w \<noteq> [] \<and> list_all p w"
proof (cases w)
  case Nil
  then show ?thesis by (simp add: Plus_def)
next
  case (Cons a v)
  have "a # v \<in> lang (Plus (Class p)) \<longleftrightarrow> p a \<and> v \<in> star {[c] | c. p c}"
  proof
    assume "a # v \<in> lang (Plus (Class p))"
    then show "p a \<and> v \<in> star {[c] | c. p c}" by (auto simp: Plus_def)
  next
    assume "p a \<and> v \<in> star {[c] | c. p c}"
    then have "[a] \<in> lang (Class p)" "v \<in> lang (Rep (Class p))" by simp_all
    then have "[a] @ v \<in> lang (Plus (Class p))"
      unfolding Plus_def by (simp only: lang.simps(5) mem_Collect_eq) blast
    then show "a # v \<in> lang (Plus (Class p))" by simp
  qed
  with Cons show ?thesis by (simp add: star_class)
qed

lemma lang_emailRegex: "w \<in> lang emailRegex \<longleftrightarrow> emailShape w"
proof
  assume "w \<in> lang emailRegex"
  then obtain a b c where "w = a @ [of_char CHR ''@''] @ b @ [of_char CHR ''.''] @ c"
    "a \<in> lang (Plus (Class notSpaceAt))" "b \<in> lang (Plus (Class notSpaceAt))"
    "c \<in> lang (Plus (Class notSpaceAt))"
    unfolding emailRegex_def by (simp only: lang.simps mem_Collect_eq) blast
  then show "emailShape w"
    unfolding emailShape_def lang_Plus_Class by blast
next
  assume "emailShape w"
  then obtain a b c where w: "w = a @ [of_char CHR ''@''] @ b @ [of_char CHR ''.''] @ c"
    and abc: "a \<in> lang (Plus (Class notSpaceAt))" "b \<in> lang (Plus (Class notSpaceAt))"
    "c \<in> lang (Plus (Class notSpaceAt))"
    unfolding emailShape_def lang_Plus_Class by blast
  have "[of_char CHR ''.''] @ c \<in> lang (Seq (Class (\<lambda>c. c = of_char CHR ''.'')) (Plus (Class notSpaceAt)))"
    using abc(3) by (simp only: lang.simps mem_Collect_eq) blast
  with abc(2) have "b @ [of_char CHR ''.''] @ c \<in> lang (Seq (Plus (Class notSpaceAt))
      (Seq (Class (\<lambda>c. c = of_char CHR ''.'')) (Plus (Class notSpaceAt))))"
    by (simp only: lang.simps(5) mem_Collect_eq) blast
  then have "[of_char CHR ''@''] @ b @ [of_char CHR ''.''] @ c \<in> lang (Seq (Class (\<lambda>c. c = of_char CHR ''@'')) (Seq (Plus (Class notSpaceAt))
      (Seq (Class (\<lambda>c. c = of_char CHR ''.'')) (Plus (Class notSpaceAt)))))"
    by (simp only: lang.simps(3,5) mem_Collect_eq) blast
  with abc(1) show "w \<in> lang emailRegex"
    unfolding emailRegex_def w by (simp only: lang.simps(5) mem_Collect_eq) blast
qed

subsection \<open>Step validation\<close>

lemma validateStep_eq:
  "validateStep step s =
     (failures (ownedFields step) (formData s) = Map.empty,
      s\<lparr>errors := failures (ownedFields step) (formData s)\<rparr>)"
proof -
  let ?d = "formData s"
  have m: "map_of (filter (\<lambda>(key, error). error \<noteq> None) (newErrors step ?d)) =
        failures (ownedFields step) ?d"
    by (rule ext, rename_tac f, case_tac f)
       (auto simp: newErrors_def failures_def ownedFields_def)
  have e: "(filter (\<lambda>(key, error). error \<noteq> None) (newErrors step ?d) = []) =
        (failures (ownedFields step) ?d = Map.empty)"
    unfolding m [symmetric] by (auto simp: newErrors_def split: if_splits)
  show ?thesis
    unfolding validateStep_def Let_def using m e by simp
qed

text \<open>
  C5: for a step in 1, 2, 3, \<open>validateStep\<close> judges exactly the fields the step owns
  (full name and email; username and password; theme). The error map it stores has an
  entry for an owned field whose validator fails, holding that validator's message, and no
  other entry: it does not depend on the previous error map, which is replaced as a whole.
  The form data, the step and the submission flag are untouched, and the result is true
  exactly when the stored map is empty.
\<close>

theorem validateStep_owned:
  "step \<in> {1, 2, 3} \<Longrightarrow>
     ownedFields step = (if step = 1 then [FullName, Email]
                         else if step = 2 then [Username, Password] else [Theme]) \<and>
     errors (snd (validateStep step s)) = failures (ownedFields step) (formData s) \<and>
     (\<forall>f. errors (snd (validateStep step s)) f =
        (if f \<in> set (ownedFields step)
         then (case fieldValidator f (formData s) of None \<Rightarrow> None | Some m \<Rightarrow> Some (Some m))
         else None)) \<and>
     formData (snd (validateStep step s)) = formData s \<and>
     currentStep (snd (validateStep step s)) = currentStep s \<and>
     isSubmitting (snd (validateStep step s)) = isSubmitting s \<and>
     fst (validateStep step s) = (errors (snd (validateStep step s)) = Map.empty)"
  by (auto simp: validateStep_eq ownedFields_def failures_def)

theorem validateStep_owned_witness:
  "(1::int) \<in> {1, 2, 3} \<and> \<not> fst (validateStep 1 initialState) \<and>
   errors (snd (validateStep 1 initialState)) FullName = Some (Some ''Full name is required'') \<and>
   errors (snd (validateStep 1 initialState)) Theme = None"
proof -
  have h: "(1::int) \<in> {1, 2, 3}" by simp
  have f1: "failures (ownedFields 1) (formData initialState) FullName
      = Some (Some ''Full name is required'')"
    by code_simp
  have f2: "failures (ownedFields 1) (formData initialState) Theme = None"
    by code_simp
  have n: "failures (ownedFields 1) (formData initialState) \<noteq> Map.empty"
  proof
    assume "failures (ownedFields 1) (formData initialState) = Map.empty"
    then have "failures (ownedFields 1) (formData initialState) FullName = None" by simp
    with f1 show False by simp
  qed
  from validateStep_owned [OF h, of initialState] f1 f2 n
  show ?thesis by simp
qed

text \<open>
  C10: for a step other than 1, 2 and 3 (0 or 4, say), \<open>validateStep\<close> runs no validator,
  stores the empty error map, dropping whatever was recorded, and returns true.
\<close>

theorem validateStep_other:
  "step \<notin> {1, 2, 3} \<Longrightarrow> validateStep step s = (True, s\<lparr>errors := Map.empty\<rparr>)"
  by (simp add: validateStep_def newErrors_def)

theorem validateStep_other_witness:
  "(4::int) \<notin> {1, 2, 3} \<and> errors staleErrors Email = Some (Some ''Email is required'') \<and>
   validateStep 4 staleErrors = (True, staleErrors\<lparr>errors := Map.empty\<rparr>) \<and>
   validateStep 0 staleErrors = (True, staleErrors\<lparr>errors := Map.empty\<rparr>)"
proof -
  have h4: "(4::int) \<notin> {1, 2, 3}" and h0: "(0::int) \<notin> {1, 2, 3}" by simp_all
  have e: "errors staleErrors Email = Some (Some ''Email is required'')"
    by code_simp
  from validateStep_other [OF h4, of staleErrors] validateStep_other [OF h0, of staleErrors] h4 e
  show ?thesis by simp
qed

subsection \<open>Navigation\<close>

text \<open>
  C1: \<open>goToNextStep\<close> changes the current step only when \<open>validateStep\<close> of the current
  step returns true, and then the step becomes the minimum of its successor and 3; when
  validation fails the step is unchanged and the error map is exactly the messages of the
  failing validators of the current step.
\<close>

theorem goToNextStep_gated:
  "(currentStep (goToNextStep s) \<noteq> currentStep s \<longrightarrow> fst (validateStep (currentStep s) s)) \<and>
   (fst (validateStep (currentStep s) s) \<longrightarrow>
      currentStep (goToNextStep s) = min (currentStep s + 1) 3) \<and>
   (\<not> fst (validateStep (currentStep s) s) \<longrightarrow>
      currentStep (goToNextStep s) = currentStep s \<and>
      errors (goToNextStep s) = failures (ownedFields (currentStep s)) (formData s))"
  by (simp add: goToNextStep_def validateStep_eq)

theorem goToNextStep_gated_witness:
  "fst (validateStep (currentStep scenarioB) scenarioB) \<and>
   currentStep (goToNextStep scenarioB) = 2 \<and>
   \<not> fst (validateStep (currentStep initialState) initialState) \<and>
   currentStep (goToNextStep initialState) = 1 \<and>
   errors (goToNextStep initialState) Email = Some (Some ''Email is required'')"
proof -
  have b: "fst (validateStep (currentStep scenarioB) scenarioB)"
    by code_simp
  have a: "\<not> fst (validateStep (currentStep initialState) initialState)"
    by code_simp
  have sb: "currentStep scenarioB = 1" "currentStep initialState = 1"
    by (simp_all add: scenarioB_def initialState_def)
  have f: "failures (ownedFields (currentStep initialState)) (formData initialState) Email
      = Some (Some ''Email is required'')"
    by code_simp
  have nb: "currentStep (goToNextStep scenarioB) = min (currentStep scenarioB + 1) 3"
    using goToNextStep_gated [of scenarioB] b by blast
  have na: "currentStep (goToNextStep initialState) = currentStep initialState \<and>
      errors (goToNextStep initialState) =
        failures (ownedFields (currentStep initialState)) (formData initialState)"
    using goToNextStep_gated [of initialState] a by blast
  from a b na nb f show ?thesis by (simp add: sb)
qed

text \<open>
  C6: \<open>goToPreviousStep\<close> always lowers the current step by one, but not below 1, and
  always leaves the error map empty, whatever was recorded before; the form data and the
  submission flag are untouched.
\<close>

theorem goToPreviousStep_clamped_clears:
  "currentStep (goToPreviousStep s) = (if 1 < currentStep s then currentStep s - 1 else 1) \<and>
   errors (goToPreviousStep s) = Map.empty \<and>
   formData (goToPreviousStep s) = formData s \<and>
   isSubmitting (goToPreviousStep s) = isSubmitting s"
  by (simp add: goToPreviousStep_def)

subsection \<open>Reset\<close>

text \<open>
  C7: \<open>resetForm\<close> produces exactly the initial state (the four text fields empty, no
  theme, newsletter off, step 1, no errors, not submitting) from every state, and
  applying it twice gives the same state as applying it once.
\<close>

theorem resetForm_initial_idempotent:
  "resetForm s = initialState \<and>
   initialState =
     \<lparr>formData = \<lparr>fullName = [], email = [], username = [], password = [],
                   theme = NoTheme, newsletter = False\<rparr>,
      errors = Map.empty, currentStep = 1, isSubmitting = False\<rparr> \<and>
   resetForm (resetForm s) = resetForm s"
  by (simp add: resetForm_def initialState_def initialFormData_def)

subsection \<open>Email validation\<close>

text \<open>
  C9: \<open>validateEmail\<close> returns "Email is required" exactly when the trimmed value is
  empty; otherwise it returns "Please enter a valid email address" exactly when the raw
  value does not have the shape: one or more characters that are neither white space nor
  \<open>@\<close>, then \<open>@\<close>, then one or more such characters, then a dot, then one or more such
  characters; otherwise it returns no error.
\<close>

theorem validateEmail_cases:
  "(validateEmail e = Some ''Email is required'') = (trim e = []) \<and>
   (validateEmail e = Some ''Please enter a valid email address'') =
     (trim e \<noteq> [] \<and> \<not> emailShape e) \<and>
   (validateEmail e = None) = (trim e \<noteq> [] \<and> emailShape e)"
  by (simp add: validateEmail_def test_lang lang_emailRegex)

theorem validateEmail_cases_witness:
  "trim (js ''   '') = [] \<and>
   (trim (js ''jo@x.com'') \<noteq> [] \<and> emailShape (js ''jo@x.com'')) \<and>
   (trim (js ''jo@xcom'') \<noteq> [] \<and> \<not> emailShape (js ''jo@xcom'')) \<and>
   (trim (js ''j o@x.com'') \<noteq> [] \<and> \<not> emailShape (js ''j o@x.com''))"
proof -
  have 1: "validateEmail (js ''   '') = Some ''Email is required''" by code_simp
  have 2: "validateEmail (js ''jo@x.com'') = None" by code_simp
  have 3: "validateEmail (js ''jo@xcom'') = Some ''Please enter a valid email address''"
    by code_simp
  have 4: "validateEmail (js ''j o@x.com'') = Some ''Please enter a valid email address''"
    by code_simp
  from 1 validateEmail_cases [of "js ''   ''"] have a: "trim (js ''   '') = []" by blast
  from 2 validateEmail_cases [of "js ''jo@x.com''"]
  have b: "trim (js ''jo@x.com'') \<noteq> [] \<and> emailShape (js ''jo@x.com'')" by blast
  from 3 validateEmail_cases [of "js ''jo@xcom''"]
  have c: "trim (js ''jo@xcom'') \<noteq> [] \<and> \<not> emailShape (js ''jo@xcom'')" by blast
  from 4 validateEmail_cases [of "js ''j o@x.com''"]
  have d: "trim (js ''j o@x.com'') \<noteq> [] \<and> \<not> emailShape (js ''j o@x.com'')" by blast
  from a b c d show ?thesis by blast
qed

subsection \<open>Field updates\<close>

lemma getField_setField_same: "getField (fieldOf fv) (setField fv d) = fv"
  by (cases fv) simp_all

lemma getField_setField_other: "g \<noteq> fieldOf fv \<Longrightarrow> getField g (setField fv d) = getField g d"
  by (cases fv; cases g) simp_all

text \<open>
  C3, as the specification states it, fails: after \<open>updateField\<close> on a field with a
  recorded error the field's key is still present in the error map, holding \<open>null\<close>.
  Here the first step was validated on the empty form and the full name is then typed in.
\<close>

theorem updateField_entry_not_removed:
  "truthy (errors staleErrors FullName) \<and>
   errors (updateField (FullNameV (js ''Jo'')) staleErrors) FullName \<noteq> None"
  by code_simp

text \<open>
  C3, amended: \<open>updateField\<close> stores the value without validating it, a read of the field
  then returns the written value, and the other fields keep theirs. If a message was
  recorded for the field, the field's entry is \<open>null\<close> afterwards (the key stays); if
  none was, the error map is unchanged. The entries of all other fields, the step and the
  submission flag are untouched.
\<close>

theorem updateField_writes_and_nulls:
  "formData (updateField fv s) = setField fv (formData s) \<and>
   getField (fieldOf fv) (formData (updateField fv s)) = fv \<and>
   (\<forall>g. g \<noteq> fieldOf fv \<longrightarrow>
      getField g (formData (updateField fv s)) = getField g (formData s) \<and>
      errors (updateField fv s) g = errors s g) \<and>
   (truthy (errors s (fieldOf fv)) \<longrightarrow> errors (updateField fv s) (fieldOf fv) = Some None) \<and>
   (\<not> truthy (errors s (fieldOf fv)) \<longrightarrow> errors (updateField fv s) = errors s) \<and>
   currentStep (updateField fv s) = currentStep s \<and>
   isSubmitting (updateField fv s) = isSubmitting s"
  by (simp add: updateField_def Let_def getField_setField_same getField_setField_other)

theorem updateField_writes_and_nulls_witness:
  "Email \<noteq> fieldOf (FullNameV (js ''Jo'')) \<and>
   truthy (errors staleErrors (fieldOf (FullNameV (js ''Jo'')))) \<and>
   getField FullName (formData (updateField (FullNameV (js ''Jo'')) staleErrors)) = FullNameV (js ''Jo'') \<and>
   errors (updateField (FullNameV (js ''Jo'')) staleErrors) FullName = Some None \<and>
   errors (updateField (FullNameV (js ''Jo'')) staleErrors) Email = Some (Some ''Email is required'') \<and>
   \<not> truthy (errors initialState (fieldOf (FullNameV (js ''Jo'')))) \<and>
   errors (updateField (FullNameV (js ''Jo'')) initialState) = errors initialState"
proof -
  let ?fv = "FullNameV (js ''Jo'')"
  have t: "truthy (errors staleErrors (fieldOf ?fv))" by code_simp
  have n: "\<not> truthy (errors initialState (fieldOf ?fv))" by code_simp
  have e: "errors staleErrors Email = Some (Some ''Email is required'')" by code_simp
  have d: "Email \<noteq> fieldOf ?fv" by simp
  note w = updateField_writes_and_nulls [of ?fv staleErrors]
  have 1: "getField (fieldOf ?fv) (formData (updateField ?fv staleErrors)) = ?fv"
    using w by blast
  have 2: "errors (updateField ?fv staleErrors) (fieldOf ?fv) = Some None"
    using w t by blast
  have 3: "errors (updateField ?fv staleErrors) Email = errors staleErrors Email"
    using w d by blast
  have 4: "errors (updateField ?fv initialState) = errors initialState"
    using updateField_writes_and_nulls [of ?fv initialState] n by blast
  from t n d 1 2 3 4 e show ?thesis by simp
qed

subsection \<open>Submission\<close>

lemma validateStep_keeps:
  "formData (snd (validateStep step s)) = formData s"
  "currentStep (snd (validateStep step s)) = currentStep s"
  "isSubmitting (snd (validateStep step s)) = isSubmitting s"
  by (simp_all add: validateStep_eq)

text \<open>
  C2: \<open>submitForm\<close> first validates step 3. If that fails it returns false, the awaited
  operation is never started and the submission flag is what it was. If it succeeds the
  operation is started exactly once, in a state whose flag is set; the result is true
  exactly when the operation resolves (a rejection is caught and gives false), and the
  flag is cleared when \<open>submitForm\<close> returns. The current step never changes.
\<close>

theorem submitForm_lifecycle:
  "(\<not> fst (validateStep 3 s) \<longrightarrow>
      submitForm finalize s = (False, snd (validateStep 3 s), []) \<and>
      isSubmitting (fst (snd (submitForm finalize s))) = isSubmitting s) \<and>
   (fst (validateStep 3 s) \<longrightarrow>
      (\<exists>c. snd (snd (submitForm finalize s)) = [c] \<and> isSubmitting c \<and>
           fst (submitForm finalize s) = (finalize c = Resolved)) \<and>
      \<not> isSubmitting (fst (snd (submitForm finalize s)))) \<and>
   currentStep (fst (snd (submitForm finalize s))) = currentStep s"
  by (simp add: submitForm_def Let_def split_beta validateStep_keeps split: outcome.splits)

theorem submitForm_lifecycle_witness:
  "\<not> fst (validateStep 3 initialState) \<and>
   submitForm simulatedApiCall initialState = (False, snd (validateStep 3 initialState), []) \<and>
   fst (validateStep 3 scenarioE) \<and>
   fst (submitForm simulatedApiCall scenarioE) \<and>
   \<not> fst (submitForm (\<lambda>s. Rejected) scenarioE) \<and>
   length (snd (snd (submitForm (\<lambda>s. Rejected) scenarioE))) = 1 \<and>
   \<not> isSubmitting (fst (snd (submitForm (\<lambda>s. Rejected) scenarioE)))"
proof -
  have d: "\<not> fst (validateStep 3 initialState)" by code_simp
  have e: "fst (validateStep 3 scenarioE)" by code_simp
  have 1: "submitForm simulatedApiCall initialState = (False, snd (validateStep 3 initialState), [])"
    using submitForm_lifecycle [of initialState simulatedApiCall] d by blast
  have 2: "\<exists>c. snd (snd (submitForm simulatedApiCall scenarioE)) = [c] \<and> isSubmitting c \<and>
      fst (submitForm simulatedApiCall scenarioE) = (simulatedApiCall c = Resolved)"
    using submitForm_lifecycle [of scenarioE simulatedApiCall] e by blast
  have 3: "(\<exists>c. snd (snd (submitForm (\<lambda>s. Rejected) scenarioE)) = [c] \<and> isSubmitting c \<and>
      fst (submitForm (\<lambda>s. Rejected) scenarioE) = ((\<lambda>s. Rejected) c = Resolved)) \<and>
      \<not> isSubmitting (fst (snd (submitForm (\<lambda>s. Rejected) scenarioE)))"
    using submitForm_lifecycle [of scenarioE "\<lambda>s. Rejected"] e by blast
  from 2 have 4: "fst (submitForm simulatedApiCall scenarioE)"
    by (auto simp: simulatedApiCall_def)
  from 3 have 5: "\<not> fst (submitForm (\<lambda>s. Rejected) scenarioE)"
    "length (snd (snd (submitForm (\<lambda>s. Rejected) scenarioE))) = 1"
    by auto
  from d e 1 3 4 5 show ?thesis by blast
qed

subsection \<open>Closing the modal\<close>

lemma trim_Light_Dark: "trim (js ''Light'') \<noteq> []" "trim (js ''Dark'') \<noteq> []"
  by code_simp+

lemma themeValue_blank: "trim (themeValue t) \<noteq> [] \<longleftrightarrow> t \<noteq> NoTheme"
  by (cases t) (simp_all add: trim_Light_Dark, simp add: trim_def)

text \<open>
  C8: the form has data exactly when one of the four text fields is not empty after
  trimming, or newsletter is on, or a theme is chosen. With data and a declined
  confirmation \<open>handleCloseModal\<close> changes nothing; otherwise the modal is closed and the
  form is reset.
\<close>

theorem handleCloseModal_dirty:
  "hasData (formData (hook m)) =
     (trim (fullName (formData (hook m))) \<noteq> [] \<or> trim (email (formData (hook m))) \<noteq> [] \<or>
      trim (username (formData (hook m))) \<noteq> [] \<or> trim (password (formData (hook m))) \<noteq> [] \<or>
      newsletter (formData (hook m)) \<or> theme (formData (hook m)) \<noteq> NoTheme) \<and>
   (hasData (formData (hook m)) \<and> \<not> confirm ''Close and lose progress?'' \<longrightarrow>
      handleCloseModal confirm m = m) \<and>
   (\<not> (hasData (formData (hook m)) \<and> \<not> confirm ''Close and lose progress?'') \<longrightarrow>
      handleCloseModal confirm m = \<lparr>isOpen = False, hook = resetForm (hook m)\<rparr>)"
  by (auto simp: handleCloseModal_def hasData_def objectValues_def themeValue_blank)

theorem handleCloseModal_dirty_witness:
  "hasData (formData (hook dirtyModal)) \<and>
   handleCloseModal (\<lambda>prompt. False) dirtyModal = dirtyModal \<and>
   handleCloseModal (\<lambda>prompt. True) dirtyModal = \<lparr>isOpen = False, hook = initialState\<rparr> \<and>
   \<not> hasData (formData (hook cleanModal)) \<and>
   handleCloseModal (\<lambda>prompt. False) cleanModal = \<lparr>isOpen = False, hook = initialState\<rparr>"
proof -
  have d: "hasData (formData (hook dirtyModal))" by code_simp
  have c: "\<not> hasData (formData (hook cleanModal))" by code_simp
  have r: "resetForm (hook dirtyModal) = initialState" "resetForm (hook cleanModal) = initialState"
    by (simp_all add: resetForm_def initialState_def)
  have 1: "handleCloseModal (\<lambda>prompt. False) dirtyModal = dirtyModal"
    using handleCloseModal_dirty [of dirtyModal "\<lambda>prompt. False"] d by blast
  have 2: "handleCloseModal (\<lambda>prompt. True) dirtyModal =
      \<lparr>isOpen = False, hook = resetForm (hook dirtyModal)\<rparr>"
    using handleCloseModal_dirty [of dirtyModal "\<lambda>prompt. True"] by blast
  have 3: "handleCloseModal (\<lambda>prompt. False) cleanModal =
      \<lparr>isOpen = False, hook = resetForm (hook cleanModal)\<rparr>"
    using handleCloseModal_dirty [of cleanModal "\<lambda>prompt. False"] c by blast
  from d c 1 2 3 show ?thesis by (simp add: r)
qed

subsection \<open>The error map along sequences of operations\<close>

lemma fieldValidator_setField_other:
  "g \<noteq> fieldOf fv \<Longrightarrow> fieldValidator g (setField fv d) = fieldValidator g d"
  by (cases fv; cases g) simp_all

lemma fieldValidator_message: "fieldValidator f d = Some m \<Longrightarrow> m \<noteq> []"
  by (cases f)
     (auto simp: validateFullName_def validateEmail_def validateUsername_def
        validatePassword_def validateTheme_def split: if_splits)

lemma messagesCurrent_failures:
  "errors s = failures fs (formData s) \<Longrightarrow> messagesCurrent s"
  by (auto simp: messagesCurrent_def failures_def split: if_splits option.splits)

lemma messagesCurrent_empty: "errors s = Map.empty \<Longrightarrow> messagesCurrent s"
  by (simp add: messagesCurrent_def)

lemma messagesCurrent_validateStep: "messagesCurrent (snd (validateStep step s))"
  by (rule messagesCurrent_failures [of _ "ownedFields step"]) (simp add: validateStep_eq)

lemma messagesCurrent_updateField:
  assumes "messagesCurrent s"
  shows "messagesCurrent (updateField fv s)"
  unfolding messagesCurrent_def
proof (intro allI impI)
  fix f m
  assume e: "errors (updateField fv s) f = Some (Some m)"
  have stored: "errors s (fieldOf fv) = Some (Some m') \<Longrightarrow> truthy (errors s (fieldOf fv))" for m'
    using assms fieldValidator_message [of "fieldOf fv" "formData s" m']
    by (auto simp: messagesCurrent_def truthy_def)
  have ne: "f \<noteq> fieldOf fv"
  proof
    assume "f = fieldOf fv"
    with e stored show False
      by (cases "truthy (errors s (fieldOf fv))") (auto simp: updateField_def Let_def)
  qed
  with e have "errors s f = Some (Some m)"
    by (auto simp: updateField_def Let_def split: if_splits)
  with assms have "fieldValidator f (formData s) = Some m"
    by (simp add: messagesCurrent_def)
  with ne show "fieldValidator f (formData (updateField fv s)) = Some m"
    by (simp add: updateField_def Let_def fieldValidator_setField_other)
qed

lemma messagesCurrent_perform:
  "messagesCurrent s \<Longrightarrow> messagesCurrent (perform op s)"
proof (cases op)
  case (UpdateField fv)
  assume "messagesCurrent s"
  with UpdateField show ?thesis by (simp add: messagesCurrent_updateField)
next
  case (ValidateStep n)
  then show ?thesis by (simp add: messagesCurrent_validateStep)
next
  case GoToNextStep
  have "messagesCurrent (snd (validateStep (currentStep s) s))"
    by (rule messagesCurrent_validateStep)
  with GoToNextStep show ?thesis
    by (simp add: goToNextStep_def split_beta messagesCurrent_def)
next
  case GoToPreviousStep
  then show ?thesis by (simp add: messagesCurrent_empty goToPreviousStep_def)
next
  case (SubmitForm finalize)
  have "messagesCurrent (snd (validateStep 3 s))"
    by (rule messagesCurrent_validateStep)
  with SubmitForm show ?thesis
    by (simp add: submitForm_def split_beta Let_def messagesCurrent_def)
next
  case ResetForm
  then show ?thesis by (simp add: messagesCurrent_empty resetForm_def)
qed

lemma messagesCurrent_run: "messagesCurrent s \<Longrightarrow> messagesCurrent (run ops s)"
  by (induction ops arbitrary: s) (simp_all add: messagesCurrent_perform)

lemma messagesCurrent_reachable: "reachable s \<Longrightarrow> messagesCurrent s"
proof -
  assume "reachable s"
  then obtain ops where s: "s = run ops initialState"
    unfolding reachable_def by blast
  have "messagesCurrent initialState"
    by (rule messagesCurrent_empty) (simp add: initialState_def)
  then show "messagesCurrent s"
    unfolding s by (rule messagesCurrent_run)
qed

text \<open>
  C4, as the specification states it, fails: validating the first step of the empty form
  and then typing a full name reaches a state where the key of the full name is present,
  is mapped to \<open>null\<close>, and its validator reports no failure.
\<close>

theorem null_entry_reachable:
  "errors (run [ValidateStep 1, UpdateField (FullNameV (js ''Jo''))] initialState) FullName
     = Some None \<and>
   fieldValidator FullName
     (formData (run [ValidateStep 1, UpdateField (FullNameV (js ''Jo''))] initialState)) = None"
  by code_simp

text \<open>
  C4, amended: in every state reached from the initial state by a sequence of the
  operations, a field's key holds a message only if the field's validator reports that very
  message for the value stored now, and no message is empty. (A key may be present and
  mapped to \<open>null\<close>, as \<open>updateField\<close> leaves it.)
\<close>

theorem reachable_messages_current:
  "reachable s \<Longrightarrow> errors s f = Some (Some m) \<Longrightarrow>
     fieldValidator f (formData s) = Some m \<and> m \<noteq> []"
  using messagesCurrent_reachable [of s] fieldValidator_message [of f "formData s" m]
  by (simp add: messagesCurrent_def)

theorem reachable_messages_current_witness:
  "reachable (run [GoToNextStep] initialState) \<and>
   errors (run [GoToNextStep] initialState) Email = Some (Some ''Email is required'') \<and>
   fieldValidator Email (formData (run [GoToNextStep] initialState)) = Some ''Email is required''"
proof -
  have r: "reachable (run [GoToNextStep] initialState)"
    unfolding reachable_def by blast
  have e: "errors (run [GoToNextStep] initialState) Email = Some (Some ''Email is required'')"
    by code_simp
  from reachable_messages_current [OF r e] r e show ?thesis by blast
qed

end
